theory Spec2Isabelle
  imports Complex_Main "HOL-Library.Product_Lexorder" "HOL-Library.Multiset"
begin

section \<open>Sizing of replacement servers: the scenario engine and its inputs\<close>

text \<open>
  The development follows \<^verbatim>\<open>logic_sizing.py\<close>. Python floats are read as real numbers
  and Python integers as \<^typ>\<open>int\<close>; \<^verbatim>\<open>math.ceil\<close> is \<^const>\<open>ceiling\<close>. Exceptions
  are values of the type \<open>error\<close>.
\<close>

datatype error =
    ArithmeticError
  | KeyError string
  | ValidationError

subsection \<open>Candidate evaluation (\<^verbatim>\<open>rank_cenarios\<close>, the loop over \<^verbatim>\<open>df_alvo\<close>)\<close>

text \<open>One row of \<^verbatim>\<open>df_alvo\<close> as \<^verbatim>\<open>iterrows\<close> yields it: the index and the three
  columns the loop reads.\<close>

record alvo =
  Modelo_Unico :: string
  Modelo_Base :: string
  rPerf_por_Core :: real
  Cores_Maximos :: int

text \<open>The dictionary appended to \<^verbatim>\<open>cenarios_validos\<close>.\<close>

record cenario =
  modelo_unico :: string
  modelo_base :: string
  servidores :: int
  cores_por_servidor :: int
  rperf_novo :: real
  utilizacao_cores :: real
  excedente_rperf :: real

text \<open>
  The body of the loop for one row. \<open>Inr None\<close> is a \<^verbatim>\<open>continue\<close>, \<open>Inr (Some c)\<close> an
  append. A zero divisor never gets past \<^verbatim>\<open>math.ceil\<close>: the quotient raises
  \<^verbatim>\<open>ZeroDivisionError\<close>, or is infinite or not a number and \<^verbatim>\<open>math.ceil\<close> raises on it;
  the model has one error for these.
\<close>

definition avaliar_alvo :: "real \<Rightarrow> alvo \<Rightarrow> error + cenario option" where
  "avaliar_alvo rperf_final_requerido dados_alvo =
     (let modelo_base_alvo = Modelo_Base dados_alvo;
          rperf_por_core_alvo = rPerf_por_Core dados_alvo;
          cores_maximos_alvo = Cores_Maximos dados_alvo
      in if rperf_por_core_alvo = 0 \<or> cores_maximos_alvo = 0 then Inl ArithmeticError
      else
        let cores_necessarios = rperf_final_requerido / rperf_por_core_alvo;
            num_servidores_teorico = cores_necessarios / of_int cores_maximos_alvo;
            num_servidores_real = \<lceil>num_servidores_teorico\<rceil>
        in if num_servidores_real = 0 then Inr None
        else
          let cores_por_servidor_media = cores_necessarios / of_int num_servidores_real;
              cores_ativos_arredondado = \<lceil>cores_por_servidor_media\<rceil>;
              cores_ativos_por_servidor =
                (if cores_ativos_arredondado mod 2 \<noteq> 0 then cores_ativos_arredondado + 1
                 else cores_ativos_arredondado);
              utilizacao = of_int cores_ativos_por_servidor / of_int cores_maximos_alvo
          in if utilizacao < 0.60 \<or> cores_ativos_por_servidor > cores_maximos_alvo
             then Inr None
             else
               let rperf_novo_total =
                     of_int num_servidores_real * of_int cores_ativos_por_servidor
                       * rperf_por_core_alvo
               in Inr (Some \<lparr> modelo_unico = Modelo_Unico dados_alvo,
                               modelo_base = modelo_base_alvo,
                               servidores = num_servidores_real,
                               cores_por_servidor = cores_ativos_por_servidor,
                               rperf_novo = rperf_novo_total,
                               utilizacao_cores = utilizacao,
                               excedente_rperf = rperf_novo_total - rperf_final_requerido \<rparr>))"

text \<open>The loop: rows in table order, the first exception ends it.\<close>

fun cenarios_validos :: "real \<Rightarrow> alvo list \<Rightarrow> error + cenario list" where
  "cenarios_validos req [] = Inr []"
| "cenarios_validos req (d # ds) =
     (case avaliar_alvo req d of
        Inl e \<Rightarrow> Inl e
      | Inr r \<Rightarrow>
          (case cenarios_validos req ds of
             Inl e \<Rightarrow> Inl e
           | Inr cs \<Rightarrow> Inr (case r of None \<Rightarrow> cs | Some c \<Rightarrow> c # cs)))"

subsection \<open>Champion per family, ranking, truncation\<close>

text \<open>
  \<^verbatim>\<open>melhores_por_modelo\<close> is a Python dictionary: keys keep the position of their first
  insertion, an assignment to a present key replaces the value in place.
\<close>

type_synonym ('k, 'v) dict = "('k \<times> 'v) list"

fun dict_set :: "'k \<Rightarrow> 'v \<Rightarrow> ('k, 'v) dict \<Rightarrow> ('k, 'v) dict" where
  "dict_set k v [] = [(k, v)]"
| "dict_set k v ((k', v') # ps) =
     (if k = k' then (k, v) # ps else (k', v') # dict_set k v ps)"

definition melhor_passo :: "(string, cenario) dict \<Rightarrow> cenario \<Rightarrow> (string, cenario) dict" where
  "melhor_passo melhores c =
     (case map_of melhores (modelo_base c) of
        None \<Rightarrow> dict_set (modelo_base c) c melhores
      | Some m \<Rightarrow>
          if servidores c < servidores m
             \<or> (servidores c = servidores m \<and> excedente_rperf c < excedente_rperf m)
          then dict_set (modelo_base c) c melhores
          else melhores)"

definition melhores_por_modelo :: "cenario list \<Rightarrow> (string, cenario) dict" where
  "melhores_por_modelo cs = foldl melhor_passo [] cs"

definition chave :: "cenario \<Rightarrow> int \<times> real" where
  "chave x = (servidores x, excedente_rperf x)"

definition top_cenarios :: "cenario list \<Rightarrow> cenario list" where
  "top_cenarios cs =
     (let lista_de_campeoes = map snd (melhores_por_modelo cs);
          cenarios_finais_ordenados = sort_key chave lista_de_campeoes
      in take 10 cenarios_finais_ordenados)"

definition rank_cenarios :: "alvo list \<Rightarrow> real \<Rightarrow> error + cenario list" where
  "rank_cenarios df_alvo rperf_final_requerido =
     (case cenarios_validos rperf_final_requerido df_alvo of
        Inl e \<Rightarrow> Inl e
      | Inr cs \<Rightarrow> Inr (top_cenarios cs))"

subsection \<open>Inventory and base requirement (\<^verbatim>\<open>client_ambient\<close>, \<^verbatim>\<open>rperf_calc\<close>)\<close>

text \<open>The value stored per model in \<^verbatim>\<open>inventario_client\<close>; an inventory line is a model
  name with such a value.\<close>

record dados =
  inv_cores :: int
  inv_servidores :: int
  inv_utilizacao :: real

type_synonym linha = "string \<times> dados"

text \<open>
  What \<^verbatim>\<open>client_ambient\<close> does with one accepted line (lines 99 to 106): a model already
  present only has its server count increased, the cores and the utilisation of the first
  line stay; a new model is stored as entered.
\<close>

definition registrar :: "(string, dados) dict \<Rightarrow> linha \<Rightarrow> (string, dados) dict" where
  "registrar inventario e =
     (case map_of inventario (fst e) of
        Some d \<Rightarrow>
          dict_set (fst e) (d\<lparr> inv_servidores := inv_servidores d + inv_servidores (snd e) \<rparr>)
            inventario
      | None \<Rightarrow> dict_set (fst e) (snd e) inventario)"

definition inventario_client :: "linha list \<Rightarrow> (string, dados) dict" where
  "inventario_client es = foldl registrar [] es"

definition client_ambient :: "linha list \<Rightarrow> (string, dados) dict option" where
  "client_ambient es =
     (let inventario = inventario_client es
      in if inventario = [] then None else Some inventario)"

text \<open>
  The loop of \<^verbatim>\<open>rperf_calc\<close> (lines 130 to 140) over the items in order, with the running
  sum \<^verbatim>\<open>rperf_base\<close>. \<open>df\<close> is the lookup \<^verbatim>\<open>df.loc[modelo, 'rPerf_por_Core']\<close>, which
  raises \<^verbatim>\<open>KeyError\<close> for a model that is not in the index.
\<close>

definition rperf_total_modelo :: "real \<Rightarrow> dados \<Rightarrow> real" where
  "rperf_total_modelo p d =
     of_int (inv_servidores d) * of_int (inv_cores d) * p * inv_utilizacao d"

fun rperf_base_loop :: "(string \<rightharpoonup> real) \<Rightarrow> real \<Rightarrow> linha list \<Rightarrow> error + real" where
  "rperf_base_loop df rperf_base [] = Inr rperf_base"
| "rperf_base_loop df rperf_base ((modelo, d) # items) =
     (case df modelo of
        None \<Rightarrow> Inl (KeyError modelo)
      | Some p \<Rightarrow> rperf_base_loop df (rperf_base + rperf_total_modelo p d) items)"

definition rperf_base :: "(string \<rightharpoonup> real) \<Rightarrow> linha list \<Rightarrow> error + real" where
  "rperf_base df inventario = rperf_base_loop df 0 inventario"

subsection \<open>Growth projection\<close>

text \<open>
  Python's \<^verbatim>\<open>x ** n\<close> for a float \<open>x\<close> and an integer \<open>n\<close>: a negative exponent gives
  the reciprocal, and raises \<^verbatim>\<open>ZeroDivisionError\<close> when \<open>x\<close> is zero.
\<close>

definition py_pow :: "real \<Rightarrow> int \<Rightarrow> error + real" where
  "py_pow x n =
     (if 0 \<le> n then Inr (x ^ nat n)
      else if x = 0 then Inl ArithmeticError
      else Inr (1 / x ^ nat (- n)))"

text \<open>
  Lines 155 to 157 of \<^verbatim>\<open>rperf_calc\<close>, once both inputs have parsed: the rate is entered
  in percent. There is no test on the sign of either input.
\<close>

definition projecao_crescimento :: "real \<Rightarrow> real \<Rightarrow> int \<Rightarrow> error + real" where
  "projecao_crescimento rperf_base_v taxa_percent anos =
     (let taxa_anual = taxa_percent / 100
      in case py_pow (1 + taxa_anual) anos of
           Inl e \<Rightarrow> Inl e
         | Inr f \<Rightarrow> Inr (rperf_base_v * f))"

text \<open>
  The REST host (\<^verbatim>\<open>api.py\<close>): \<^verbatim>\<open>GrowthProjection\<close> declares both fields with
  \<^verbatim>\<open>ge=0\<close>, so the request is refused before the endpoint runs; the endpoint applies
  the growth only when both are positive.
\<close>

definition GrowthProjection :: "real \<Rightarrow> int \<Rightarrow> error + real \<times> int" where
  "GrowthProjection taxa_anual_percent anos =
     (if 0 \<le> taxa_anual_percent \<and> 0 \<le> anos then Inr (taxa_anual_percent, anos)
      else Inl ValidationError)"

definition api_projecao :: "real \<Rightarrow> (real \<times> int) option \<Rightarrow> real" where
  "api_projecao rperf_base_v projecao =
     (case projecao of
        None \<Rightarrow> rperf_base_v
      | Some (taxa_anual_percent, anos) \<Rightarrow>
          if 0 < anos \<and> 0 < taxa_anual_percent
          then rperf_base_v * (1 + taxa_anual_percent / 100) ^ nat anos
          else rperf_base_v)"

subsection \<open>Catalog build (\<^verbatim>\<open>data_preparation\<close>)\<close>


















text \<open>The two rows of the worked scenario: one family, 20 and 40 maximum cores, performance
  1.0 per core.\<close>

definition config_A :: alvo where
  "config_A = \<lparr> Modelo_Unico = ''X-20'', Modelo_Base = ''X'',
                rPerf_por_Core = 1, Cores_Maximos = 20 \<rparr>"

definition config_B :: alvo where
  "config_B = \<lparr> Modelo_Unico = ''X-40'', Modelo_Base = ''X'',
                rPerf_por_Core = 1, Cores_Maximos = 40 \<rparr>"

subsection \<open>The invariant of the champion dictionary\<close>

text \<open>
  What holds of \<^verbatim>\<open>melhores_por_modelo\<close> after the scenarios \<open>cs\<close> have been
  processed: keys are distinct, every processed scenario has its family among the keys,
  and the value under a key is a processed scenario of that family that no other
  processed scenario of the family beats. The order on the pairs \<open>chave\<close> is the
  lexicographic one, as for Python tuples.
\<close>

definition campeoes_inv :: "(string, cenario) dict \<Rightarrow> cenario list \<Rightarrow> bool" where
  "campeoes_inv melhores cs \<longleftrightarrow>
     distinct (map fst melhores)
     \<and> (\<forall>c \<in> set cs. modelo_base c \<in> fst ` set melhores)
     \<and> (\<forall>(k, v) \<in> set melhores.
           modelo_base v = k \<and> v \<in> set cs
           \<and> (\<forall>c \<in> set cs. modelo_base c = k \<longrightarrow> chave v \<le> chave c))"

section \<open>Theorems\<close>

subsection \<open>Candidate evaluation\<close>



lemma avaliar_alvo_total:
  assumes "rPerf_por_Core d \<noteq> 0" and "Cores_Maximos d \<noteq> 0"
  shows "\<exists>r. avaliar_alvo req d = Inr r"
  using assms by (simp add: avaliar_alvo_def Let_def)

lemma cenarios_validos_total:
  assumes "\<forall>d \<in> set df. rPerf_por_Core d \<noteq> 0 \<and> Cores_Maximos d \<noteq> 0"
  shows "\<exists>cs. cenarios_validos req df = Inr cs"
  using assms
proof (induction df)
  case Nil
  then show ?case by simp
next
  case (Cons d df)
  then obtain cs where cs: "cenarios_validos req df = Inr cs" by auto
  from Cons.prems obtain r where r: "avaliar_alvo req d = Inr r"
    using avaliar_alvo_total [of d req] by auto
  show ?case by (simp add: cs r)
qed



lemma map_fst_dict_set_in:
  "k \<in> fst ` set d \<Longrightarrow> map fst (dict_set k v d) = map fst d"
  by (induction d) (simp, force)

lemma map_fst_dict_set_notin:
  "k \<notin> fst ` set d \<Longrightarrow> map fst (dict_set k v d) = map fst d @ [k]"
  by (induction d) auto

lemma map_fst_dict_set:
  "map fst (dict_set k v d) = (if k \<in> fst ` set d then map fst d else map fst d @ [k])"
  by (simp add: map_fst_dict_set_in map_fst_dict_set_notin)

lemma set_dict_set:
  assumes "distinct (map fst d)" and "p \<in> set (dict_set k v d)"
  shows "p = (k, v) \<or> (p \<in> set d \<and> fst p \<noteq> k)"
  using assms by (induction d) (auto split: if_splits)

lemma dict_set_mem: "(k, v) \<in> set (dict_set k v d)"
  by (induction d) auto

lemma melhor_passo_cond:
  "(servidores c < servidores m
     \<or> (servidores c = servidores m \<and> excedente_rperf c < excedente_rperf m))
   \<longleftrightarrow> chave c < chave m"
  by (auto simp: chave_def less_prod_def)

lemma campeoes_inv_passo:
  assumes inv: "campeoes_inv d cs"
  shows "campeoes_inv (melhor_passo d c) (cs @ [c])"
proof -
  let ?k = "modelo_base c"
  from inv have dist: "distinct (map fst d)"
    and cov: "\<And>x. x \<in> set cs \<Longrightarrow> modelo_base x \<in> fst ` set d"
    and best: "\<And>k v. (k, v) \<in> set d \<Longrightarrow>
        modelo_base v = k \<and> v \<in> set cs
        \<and> (\<forall>x \<in> set cs. modelo_base x = k \<longrightarrow> chave v \<le> chave x)"
    by (auto simp: campeoes_inv_def)
  show ?thesis
  proof (cases "map_of d ?k")
    case None
    then have nk: "?k \<notin> fst ` set d" by (simp add: map_of_eq_None_iff)
    have step: "melhor_passo d c = dict_set ?k c d" by (simp add: melhor_passo_def None)
    have 1: "distinct (map fst (dict_set ?k c d))"
      using dist nk by (simp add: map_fst_dict_set)
    have 2: "\<forall>x \<in> set (cs @ [c]). modelo_base x \<in> fst ` set (dict_set ?k c d)"
    proof
      fix x assume "x \<in> set (cs @ [c])"
      then have "modelo_base x \<in> set (map fst d @ [?k])" using cov by auto
      then show "modelo_base x \<in> fst ` set (dict_set ?k c d)"
        using nk map_fst_dict_set [of ?k c d] by (metis list.set_map)
    qed
    have 3: "\<forall>(k, v) \<in> set (dict_set ?k c d).
        modelo_base v = k \<and> v \<in> set (cs @ [c])
        \<and> (\<forall>x \<in> set (cs @ [c]). modelo_base x = k \<longrightarrow> chave v \<le> chave x)"
    proof (clarify)
      fix k v assume kv: "(k, v) \<in> set (dict_set ?k c d)"
      from set_dict_set [OF dist kv]
      show "modelo_base v = k \<and> v \<in> set (cs @ [c])
        \<and> (\<forall>x \<in> set (cs @ [c]). modelo_base x = k \<longrightarrow> chave v \<le> chave x)"
      proof
        assume "(k, v) = (?k, c)"
        then have kv': "k = ?k" "v = c" by simp_all
        have "\<forall>x \<in> set cs. modelo_base x \<noteq> ?k" using cov nk by metis
        then show ?thesis using kv' by auto
      next
        assume "(k, v) \<in> set d \<and> fst (k, v) \<noteq> ?k"
        then show ?thesis using best [of k v] by auto
      qed
    qed
    show ?thesis unfolding step campeoes_inv_def using 1 2 3 by blast
  next
    case (Some m)
    then have km: "(?k, m) \<in> set d" by (rule map_of_SomeD)
    then have kin: "?k \<in> fst ` set d" by force
    from best [OF km] have mb: "modelo_base m = ?k" and mcs: "m \<in> set cs"
      and mmin: "\<And>x. x \<in> set cs \<Longrightarrow> modelo_base x = ?k \<Longrightarrow> chave m \<le> chave x"
      by auto
    show ?thesis
    proof (cases "chave c < chave m")
      case True
      have step: "melhor_passo d c = dict_set ?k c d"
        using True by (simp add: melhor_passo_def Some melhor_passo_cond)
      have keys: "map fst (dict_set ?k c d) = map fst d"
        using kin by (simp add: map_fst_dict_set)
      have 1: "distinct (map fst (dict_set ?k c d))" using dist keys by simp
      have 2: "\<forall>x \<in> set (cs @ [c]). modelo_base x \<in> fst ` set (dict_set ?k c d)"
      proof
        fix x assume "x \<in> set (cs @ [c])"
        then have "modelo_base x \<in> set (map fst d)" using cov kin by auto
        then show "modelo_base x \<in> fst ` set (dict_set ?k c d)"
          using keys by (metis list.set_map)
      qed
      have 3: "\<forall>(k, v) \<in> set (dict_set ?k c d).
          modelo_base v = k \<and> v \<in> set (cs @ [c])
          \<and> (\<forall>x \<in> set (cs @ [c]). modelo_base x = k \<longrightarrow> chave v \<le> chave x)"
      proof (clarify)
        fix k v assume kv: "(k, v) \<in> set (dict_set ?k c d)"
        from set_dict_set [OF dist kv]
        show "modelo_base v = k \<and> v \<in> set (cs @ [c])
          \<and> (\<forall>x \<in> set (cs @ [c]). modelo_base x = k \<longrightarrow> chave v \<le> chave x)"
        proof
          assume "(k, v) = (?k, c)"
          then show ?thesis using mmin True by (auto intro: less_imp_le order_trans)
        next
          assume "(k, v) \<in> set d \<and> fst (k, v) \<noteq> ?k"
          then show ?thesis using best [of k v] by auto
        qed
      qed
      show ?thesis unfolding step campeoes_inv_def using 1 2 3 by blast
    next
      case False
      then have le: "chave m \<le> chave c" by simp
      have step: "melhor_passo d c = d"
        using False by (simp add: melhor_passo_def Some melhor_passo_cond)
      have 2: "\<forall>x \<in> set (cs @ [c]). modelo_base x \<in> fst ` set d"
        using cov kin by auto
      have 3: "\<forall>(k, v) \<in> set d.
          modelo_base v = k \<and> v \<in> set (cs @ [c])
          \<and> (\<forall>x \<in> set (cs @ [c]). modelo_base x = k \<longrightarrow> chave v \<le> chave x)"
      proof (clarify)
        fix k v assume kv: "(k, v) \<in> set d"
        show "modelo_base v = k \<and> v \<in> set (cs @ [c])
          \<and> (\<forall>x \<in> set (cs @ [c]). modelo_base x = k \<longrightarrow> chave v \<le> chave x)"
        proof (cases "k = ?k")
          case True
          with kv km dist have "v = m" by (metis eq_key_imp_eq_value)
          then show ?thesis using True mb mcs mmin le by auto
        next
          case False
          then show ?thesis using best [OF kv] by auto
        qed
      qed
      show ?thesis unfolding step campeoes_inv_def using dist 2 3 by blast
    qed
  qed
qed

lemma campeoes_inv_foldl:
  assumes "campeoes_inv d pre"
  shows "campeoes_inv (foldl melhor_passo d cs) (pre @ cs)"
  using assms
proof (induction cs arbitrary: d pre)
  case Nil
  then show ?case by simp
next
  case (Cons c cs)
  from campeoes_inv_passo [OF Cons.prems, of c]
  have "campeoes_inv (melhor_passo d c) (pre @ [c])" .
  from Cons.IH [OF this] show ?case by simp
qed

lemma campeoes_inv_melhores: "campeoes_inv (melhores_por_modelo cs) cs"
  using campeoes_inv_foldl [of "[]" "[]" cs]
  by (simp add: melhores_por_modelo_def campeoes_inv_def)

lemma top_cenarios_props:
  "length (top_cenarios cs) \<le> 10
   \<and> distinct (map modelo_base (top_cenarios cs))
   \<and> sorted (map chave (top_cenarios cs))
   \<and> (\<forall>s \<in> set (top_cenarios cs).
         s \<in> set cs \<and> (\<forall>c \<in> set cs. modelo_base c = modelo_base s \<longrightarrow> chave s \<le> chave c))"
proof -
  let ?d = "melhores_por_modelo cs"
  let ?ch = "map snd ?d"
  have inv: "campeoes_inv ?d cs" by (rule campeoes_inv_melhores)
  have fam: "map modelo_base ?ch = map fst ?d"
    using inv by (auto simp: campeoes_inv_def)
  have top: "top_cenarios cs = take 10 (sort_key chave ?ch)"
    by (simp add: top_cenarios_def)
  have 1: "length (top_cenarios cs) \<le> 10" by (simp add: top)
  have "\<And>xs. mset (map modelo_base (sort_key chave xs)) = mset (map modelo_base xs)"
    by simp
  then have "mset (map modelo_base (sort_key chave ?ch)) = mset (map modelo_base ?ch)"
    by blast
  moreover have "distinct (map modelo_base ?ch)"
    unfolding fam using inv by (simp add: campeoes_inv_def)
  ultimately have "distinct (map modelo_base (sort_key chave ?ch))"
    using mset_eq_imp_distinct_iff by blast
  then have 2: "distinct (map modelo_base (top_cenarios cs))"
    by (metis top take_map distinct_take)
  have "sorted (map chave (sort_key chave ?ch))" by (rule sorted_sort_key)
  then have 3: "sorted (map chave (top_cenarios cs))"
    by (metis top take_map sorted_wrt_take)
  have 4: "\<forall>s \<in> set (top_cenarios cs).
         s \<in> set cs \<and> (\<forall>c \<in> set cs. modelo_base c = modelo_base s \<longrightarrow> chave s \<le> chave c)"
  proof
    fix s assume "s \<in> set (top_cenarios cs)"
    then have "s \<in> set ?ch" unfolding top by (auto dest: in_set_takeD)
    then obtain k where "(k, s) \<in> set ?d" by auto
    then show "s \<in> set cs \<and> (\<forall>c \<in> set cs. modelo_base c = modelo_base s \<longrightarrow> chave s \<le> chave c)"
      using inv by (auto simp: campeoes_inv_def)
  qed
  show ?thesis using 1 2 3 4 by blast
qed

subsection \<open>The worked scenario\<close>

lemma avaliar_config_A:
  "avaliar_alvo 15 config_A =
     Inr (Some \<lparr> modelo_unico = ''X-20'', modelo_base = ''X'', servidores = 1,
                 cores_por_servidor = 16, rperf_novo = 16, utilizacao_cores = 4 / 5,
                 excedente_rperf = 1 \<rparr>)"
proof -
  have a: "\<lceil>(15::real) / 20\<rceil> = 1" by (simp add: ceiling_eq_iff)
  show ?thesis
    by (simp add: avaliar_alvo_def config_A_def Let_def a)
qed

lemma avaliar_config_B: "avaliar_alvo 15 config_B = Inr None"
proof -
  have a: "\<lceil>(15::real) / 40\<rceil> = 1" by (simp add: ceiling_eq_iff)
  show ?thesis
    by (simp add: avaliar_alvo_def config_B_def Let_def a)
qed

text \<open>
  C2. Family X with A (20 cores, 1.0 per core) and B (40 cores, 1.0 per core), required
  performance 15: A yields one server with 16 active cores, utilisation 0.80, total
  performance 16 and surplus 1; B is rejected (utilisation 16/40 below 0.60); the result
  is exactly A's scenario.
\<close>

theorem C2_worked_scenario:
  "avaliar_alvo 15 config_A =
     Inr (Some \<lparr> modelo_unico = ''X-20'', modelo_base = ''X'', servidores = 1,
                 cores_por_servidor = 16, rperf_novo = 16, utilizacao_cores = 0.80,
                 excedente_rperf = 1 \<rparr>)
   \<and> avaliar_alvo 15 config_B = Inr None
   \<and> rank_cenarios [config_A, config_B] 15 =
       Inr [\<lparr> modelo_unico = ''X-20'', modelo_base = ''X'', servidores = 1,
              cores_por_servidor = 16, rperf_novo = 16, utilizacao_cores = 0.80,
              excedente_rperf = 1 \<rparr>]"
  by (simp add: rank_cenarios_def avaliar_config_A avaliar_config_B top_cenarios_def
      melhores_por_modelo_def melhor_passo_def)

subsection \<open>Ranking, emitted scenarios, non-positive requirement\<close>

lemma chave_le_iff:
  "chave a \<le> chave b \<longleftrightarrow>
     servidores a < servidores b
     \<or> (servidores a = servidores b \<and> excedente_rperf a \<le> excedente_rperf b)"
  by (auto simp: chave_def less_eq_prod_def)


text \<open>
  C1. Whenever no row has a zero divisor (otherwise the loop raises), \<^verbatim>\<open>rank_cenarios\<close>
  returns a list of at most 10 scenarios, with pairwise different families, sorted
  ascending by the pair (servers, surplus), and each returned scenario is one of the
  emitted scenarios and is least under that pair order among the emitted scenarios of
  its family.
\<close>

theorem C1_rank_cenarios:
  assumes "\<forall>d \<in> set df_alvo. rPerf_por_Core d \<noteq> 0 \<and> Cores_Maximos d \<noteq> 0"
  shows "\<exists>cs top.
      cenarios_validos req df_alvo = Inr cs \<and> rank_cenarios df_alvo req = Inr top
      \<and> length top \<le> 10
      \<and> distinct (map modelo_base top)
      \<and> sorted (map chave top)
      \<and> (\<forall>s \<in> set top.
            s \<in> set cs
            \<and> (\<forall>c \<in> set cs. modelo_base c = modelo_base s \<longrightarrow> chave s \<le> chave c))"
proof -
  from cenarios_validos_total [OF assms, of req]
  obtain cs where cs: "cenarios_validos req df_alvo = Inr cs" ..
  then have "rank_cenarios df_alvo req = Inr (top_cenarios cs)"
    by (simp add: rank_cenarios_def)
  with cs top_cenarios_props [of cs] show ?thesis by blast
qed

theorem C1_rank_cenarios_witness:
  "rPerf_por_Core config_A \<noteq> 0 \<and> Cores_Maximos config_A \<noteq> 0
   \<and> rPerf_por_Core config_B \<noteq> 0 \<and> Cores_Maximos config_B \<noteq> 0
   \<and> (\<exists>cs top.
        cenarios_validos 15 [config_A, config_B] = Inr cs
        \<and> rank_cenarios [config_A, config_B] 15 = Inr top
        \<and> length top \<le> 10
        \<and> distinct (map modelo_base top)
        \<and> sorted (map chave top)
        \<and> (\<forall>s \<in> set top.
              s \<in> set cs
              \<and> (\<forall>c \<in> set cs. modelo_base c = modelo_base s \<longrightarrow> chave s \<le> chave c)))"
proof -
  have h: "\<forall>d \<in> set [config_A, config_B]. rPerf_por_Core d \<noteq> 0 \<and> Cores_Maximos d \<noteq> 0"
    by (simp add: config_A_def config_B_def)
  from C1_rank_cenarios [OF h, of 15] h show ?thesis by simp
qed







subsection \<open>Base requirement: order and merging\<close>

















text \<open>
  C10. Over an empty inventory the loop of \<^verbatim>\<open>rperf_calc\<close> returns 0, and no lookup
  can fail.
\<close>

theorem C10_empty_inventory: "rperf_base df [] = Inr 0"
  by (simp add: rperf_base_def)

subsection \<open>Growth projection\<close>


lemma api_projecao_eq:
  assumes "0 \<le> taxa_anual_percent" and "0 \<le> anos"
  shows "api_projecao b (Some (taxa_anual_percent, anos))
           = b * (1 + taxa_anual_percent / 100) ^ nat anos"
proof (cases "0 < anos \<and> 0 < taxa_anual_percent")
  case True
  then show ?thesis by (simp add: api_projecao_def)
next
  case False
  with assms have "anos = 0 \<or> taxa_anual_percent = 0" by auto
  then show ?thesis using False by (auto simp: api_projecao_def)
qed



text \<open>
  C7. \<^verbatim>\<open>rperf_calc\<close> does not reject a negative rate or a negative number of years: on a
  base of 100, a rate of -50 percent over 1 year, and a rate of 100 percent over -1 year,
  both return 50. The REST host's \<^verbatim>\<open>GrowthProjection\<close> refuses the same values.
\<close>

theorem C7_negative_growth_computed:
  "projecao_crescimento 100 (- 50) 1 = Inr 50
   \<and> projecao_crescimento 100 100 (- 1) = Inr 50
   \<and> GrowthProjection (- 50) 1 = Inl ValidationError
   \<and> GrowthProjection 100 (- 1) = Inl ValidationError"
  by (simp add: projecao_crescimento_def py_pow_def GrowthProjection_def)

subsection \<open>Catalog build\<close>













end
